theory Spec2Isabelle
  imports Main "HOL-Library.Word"
begin

section \<open>The Answer component of the chat frontend\<close>

text \<open>
  A shallow embedding of \<^verbatim>\<open>app/frontend/src/components/Answer/Answer.tsx\<close>: the four
  \<^verbatim>\<open>useState\<close> hooks of the component are the fields of a record, every event handler
  is a function from the state of the last render to the next state, and every call
  that leaves the component (a callback of the props, the clipboard, the console, a
  timer) is appended to a trace kept in the same record.
\<close>

subsection \<open>Strings\<close>

text \<open>
  A JavaScript string is a sequence of 16-bit code units. The regular expression of
  \<^verbatim>\<open>handleCopy\<close> has no \<^verbatim>\<open>u\<close> flag and \<^verbatim>\<open>trim\<close> removes code units, so code units
  are what the model counts. \<open>js\<close> reads an ASCII literal as such a string.
\<close>

type_synonym jsstring = "16 word list"

definition js :: "string \<Rightarrow> jsstring" where
  "js cs = map of_char cs"

text \<open>
  \<^verbatim>\<open>`${n}`\<close> for a non-negative integer \<open>n\<close> in the range where Number is exact: its
  decimal digits, most significant first, \<^verbatim>\<open>"0"\<close> for zero.
\<close>

definition digitChar :: "nat \<Rightarrow> 16 word" where
  "digitChar d = of_nat (48 + d)"

function decimal :: "nat \<Rightarrow> jsstring" where
  "decimal n = (if n < 10 then [digitChar n] else decimal (n div 10) @ [digitChar (n mod 10)])"
  by pat_completeness auto
termination
  by (relation "measure (\<lambda>n. n)") auto

declare decimal.simps [simp del]

text \<open>
  \<^verbatim>\<open>String.prototype.trim\<close> removes WhiteSpace and LineTerminator code units from both
  ends: TAB, LF, VT, FF, CR, SP, NBSP, the other space separators of Unicode (all in the
  basic plane), LS, PS and the byte order mark.
\<close>

definition isWhiteSpace :: "16 word \<Rightarrow> bool" where
  "isWhiteSpace c =
     (c = 0x09 \<or> c = 0x0A \<or> c = 0x0B \<or> c = 0x0C \<or> c = 0x0D \<or> c = 0x20 \<or> c = 0xA0 \<or>
      c = 0x1680 \<or> (0x2000 \<le> c \<and> c \<le> 0x200A) \<or> c = 0x2028 \<or> c = 0x2029 \<or>
      c = 0x202F \<or> c = 0x205F \<or> c = 0x3000 \<or> c = 0xFEFF)"

definition trim :: "jsstring \<Rightarrow> jsstring" where
  "trim s = rev (dropWhile isWhiteSpace (rev (dropWhile isWhiteSpace s)))"

text \<open>JavaScript truthiness of a string: every string but the empty one.\<close>

definition truthy :: "jsstring \<Rightarrow> bool" where
  "truthy s = (s \<noteq> [])"

subsection \<open>The regular expression of \<^verbatim>\<open>handleCopy\<close>\<close>

text \<open>
  \<^verbatim>\<open>/<a [^>]*><sup>\d+<\/sup><\/a>|<[^>]+>/g\<close>, compiled by hand. Each matcher takes the
  text at the position tried and returns the text after the match, or \<open>None\<close>.

  Both greedy repetitions are followed by a code unit outside their class (\<^verbatim>\<open>>\<close> after
  \<^verbatim>\<open>[^>]*\<close> and \<^verbatim>\<open>[^>]+\<close>, \<^verbatim>\<open><\<close> after \<^verbatim>\<open>\d+\<close>), so the longest repetition is the only one a
  backtracking matcher can succeed with: \<open>dropWhile\<close> is the whole search.
\<close>

definition GT :: "16 word" where "GT = of_char CHR ''>''"
definition LT :: "16 word" where "LT = of_char CHR ''<''"

definition isDigit :: "16 word \<Rightarrow> bool" where
  "isDigit c = (of_char CHR ''0'' \<le> c \<and> c \<le> of_char CHR ''9'')"

fun literal :: "jsstring \<Rightarrow> jsstring \<Rightarrow> jsstring option" where
  "literal [] s = Some s"
| "literal (p # ps) [] = None"
| "literal (p # ps) (c # cs) = (if p = c then literal ps cs else None)"

text \<open>\<^verbatim>\<open><a [^>]*><sup>\d+<\/sup><\/a>\<close>: the first alternative.\<close>

definition matchCitation :: "jsstring \<Rightarrow> jsstring option" where
  "matchCitation s =
     (case literal (js ''<a '') s of
        None \<Rightarrow> None
      | Some r1 \<Rightarrow>
          (case literal (js ''><sup>'') (dropWhile (\<lambda>c. c \<noteq> GT) r1) of
             None \<Rightarrow> None
           | Some r2 \<Rightarrow>
               if takeWhile isDigit r2 = [] then None
               else literal (js ''</sup></a>'') (dropWhile isDigit r2)))"

text \<open>\<^verbatim>\<open><[^>]+>\<close>: the second alternative.\<close>

definition matchTag :: "jsstring \<Rightarrow> jsstring option" where
  "matchTag s =
     (case literal [LT] s of
        None \<Rightarrow> None
      | Some r1 \<Rightarrow>
          if takeWhile (\<lambda>c. c \<noteq> GT) r1 = [] then None
          else literal [GT] (dropWhile (\<lambda>c. c \<noteq> GT) r1))"

text \<open>The alternation tries its left side first.\<close>

definition matchAt :: "jsstring \<Rightarrow> jsstring option" where
  "matchAt s = (case matchCitation s of Some r \<Rightarrow> Some r | None \<Rightarrow> matchTag s)"

lemma literal_length: "literal p s = Some r \<Longrightarrow> length r + length p = length s"
  by (induction p s rule: literal.induct) (auto split: if_splits)

lemma matchTag_length: "matchTag s = Some r \<Longrightarrow> length r < length s"
proof -
  assume m: "matchTag s = Some r"
  then obtain r1 where r1: "literal [LT] s = Some r1"
    and r: "literal [GT] (dropWhile (\<lambda>c. c \<noteq> GT) r1) = Some r"
    by (auto simp: matchTag_def split: option.splits if_splits)
  have "length r < length (dropWhile (\<lambda>c. c \<noteq> GT) r1)"
    using literal_length [OF r] by simp
  also have "\<dots> \<le> length r1" by (rule length_dropWhile_le)
  also have "\<dots> < length s" using literal_length [OF r1] by simp
  finally show ?thesis .
qed

lemma matchCitation_length: "matchCitation s = Some r \<Longrightarrow> length r < length s"
proof -
  assume m: "matchCitation s = Some r"
  then obtain r1 r2 where r1: "literal (js ''<a '') s = Some r1"
    and r2: "literal (js ''><sup>'') (dropWhile (\<lambda>c. c \<noteq> GT) r1) = Some r2"
    and r: "literal (js ''</sup></a>'') (dropWhile isDigit r2) = Some r"
    by (auto simp: matchCitation_def split: option.splits if_splits)
  have "length r \<le> length (dropWhile isDigit r2)"
    using literal_length [OF r] by simp
  also have "\<dots> \<le> length r2" by (rule length_dropWhile_le)
  also have "\<dots> \<le> length (dropWhile (\<lambda>c. c \<noteq> GT) r1)"
    using literal_length [OF r2] by simp
  also have "\<dots> \<le> length r1" by (rule length_dropWhile_le)
  also have "\<dots> < length s" using literal_length [OF r1] by (simp add: js_def)
  finally show ?thesis .
qed

lemma matchAt_length: "matchAt s = Some r \<Longrightarrow> length r < length s"
  by (auto simp: matchAt_def matchTag_length matchCitation_length split: option.splits)

text \<open>
  \<^verbatim>\<open>s.replace(re, "")\<close> with the \<^verbatim>\<open>g\<close> flag: the matches are searched from left to right,
  each search starting where the last match ended; what no match covers is kept. No
  match of this expression is empty.
\<close>

function replaceAll :: "jsstring \<Rightarrow> jsstring" where
  "replaceAll [] = []"
| "replaceAll (c # cs) =
     (case matchAt (c # cs) of Some r \<Rightarrow> replaceAll r | None \<Rightarrow> c # replaceAll cs)"
  by pat_completeness auto
termination
  by (relation "measure length") (auto dest: matchAt_length)

subsection \<open>Props, state and effects\<close>

text \<open>
  Modelled from the spec: the enumeration \<^verbatim>\<open>Feedback\<close>, imported from \<^verbatim>\<open>../../api\<close>, whose
  declaration is not in the source tree. The spec gives its three members, and the
  component uses exactly these three.
\<close>

datatype Feedback = Neutral | Positive | Negative

text \<open>
  The props the modelled handlers read. A callback is opaque: the model records whether
  it was supplied, and every invocation with its arguments. \<open>sanitizedAnswerHtml\<close> and
  \<open>citations\<close> are what the parser and the sanitizer (both outside the file) returned
  for this render; \<open>followupQuestions\<close> is \<^verbatim>\<open>answer.context?.followup_questions\<close>,
  \<open>thoughtsLength\<close> is \<^verbatim>\<open>answer.context.thoughts?.length\<close>, \<open>dataPoints\<close> is whether
  \<^verbatim>\<open>answer.context.data_points\<close> is truthy, and \<open>None\<close> stands for \<^verbatim>\<open>undefined\<close> in the
  optional values. The last field is not a prop but the one fact about the browser that
  a handler depends on: \<open>clipboardDefined\<close> is whether \<^verbatim>\<open>navigator.clipboard\<close> is defined
  (it is not outside a secure context).
\<close>

record props =
  sanitizedAnswerHtml :: jsstring
  citations :: "jsstring list"
  followupQuestions :: "jsstring list option"
  thoughtsLength :: "nat option"
  dataPoints :: bool
  onFollowupQuestionClicked :: bool
  onFeedbackProvided :: bool
  showFollowupQuestions :: "bool option"
  clipboardDefined :: bool

text \<open>What a handler can throw.\<close>

datatype error = TypeError

text \<open>
  Every call that leaves the component, with its arguments. \<open>Uncaught\<close> is an error
  that a handler threw and nothing in the component caught.
\<close>

datatype call =
    OnFeedbackProvided Feedback "jsstring option"
  | OnCitationClicked jsstring
  | OnFollowupQuestionClicked jsstring
  | OnThoughtProcessClicked
  | OnSupportingContentClicked
  | ClipboardWriteText jsstring
  | ConsoleError jsstring jsstring
  | Uncaught error

text \<open>
  The first four fields are the \<^verbatim>\<open>useState\<close> hooks. \<open>calls\<close> is the trace of effects,
  \<open>pendingWrites\<close> counts the clipboard promises not yet settled, \<open>timers\<close> holds the due
  time of every pending \<^verbatim>\<open>setTimeout(() => setCopied(false), 2000)\<close>, and \<open>now\<close> is the
  clock in milliseconds.
\<close>

record state =
  copied :: bool
  feedbackState :: Feedback
  isFeedbackDialogOpen :: bool
  feedbackMessage :: jsstring
  calls :: "call list"
  pendingWrites :: nat
  timers :: "nat list"
  now :: nat

definition initialState :: state where
  "initialState =
     \<lparr>copied = False, feedbackState = Neutral, isFeedbackDialogOpen = False,
      feedbackMessage = [], calls = [], pendingWrites = 0, timers = [], now = 0\<rparr>"

subsection \<open>The handlers\<close>

definition textToCopy :: "props \<Rightarrow> jsstring" where
  "textToCopy p = replaceAll (sanitizedAnswerHtml p)"

text \<open>
  \<^verbatim>\<open>navigator.clipboard.writeText(textToCopy)\<close> reads \<^verbatim>\<open>writeText\<close> from
  \<^verbatim>\<open>navigator.clipboard\<close> before any promise exists: where that is undefined the handler
  throws a TypeError, outside the reach of the \<^verbatim>\<open>catch\<close> below.
\<close>

definition handleCopy :: "props \<Rightarrow> state \<Rightarrow> error + state" where
  "handleCopy p s =
     (let txt = textToCopy p in
      if \<not> clipboardDefined p then Inl TypeError
      else Inr (s\<lparr>calls := calls s @ [ClipboardWriteText txt],
                  pendingWrites := Suc (pendingWrites s)\<rparr>))"

text \<open>The \<^verbatim>\<open>then\<close> branch of the clipboard promise.\<close>

definition copyResolved :: "state \<Rightarrow> state" where
  "copyResolved s = s\<lparr>copied := True, timers := timers s @ [now s + 2000]\<rparr>"

text \<open>The \<^verbatim>\<open>catch\<close> branch.\<close>

definition copyRejected :: "jsstring \<Rightarrow> state \<Rightarrow> state" where
  "copyRejected err s = s\<lparr>calls := calls s @ [ConsoleError (js ''Failed to copy text: '') err]\<rparr>"

text \<open>
  \<open>d\<close> milliseconds pass: every timer that is due by then has run \<^verbatim>\<open>setCopied(false)\<close>.
\<close>

definition timePasses :: "nat \<Rightarrow> state \<Rightarrow> state" where
  "timePasses d s =
     (let t = now s + d in
      s\<lparr>copied := (if list_ex (\<lambda>due. due \<le> t) (timers s) then False else copied s),
        timers := filter (\<lambda>due. t < due) (timers s),
        now := t\<rparr>)"

definition handleFeedback :: "props \<Rightarrow> Feedback \<Rightarrow> state \<Rightarrow> state" where
  "handleFeedback p feedback s =
     (if \<not> onFeedbackProvided p then s
      else if feedback = Negative then
        s\<lparr>feedbackState := feedback, isFeedbackDialogOpen := True\<rparr>
      else
        let newState = (if feedbackState s = feedback then Neutral else feedback) in
        s\<lparr>feedbackState := newState,
          calls := calls s @ [OnFeedbackProvided newState None]\<rparr>)"

definition handleFeedbackSubmit :: "props \<Rightarrow> state \<Rightarrow> state" where
  "handleFeedbackSubmit p s =
     (let s1 = (if onFeedbackProvided p
                then s\<lparr>calls := calls s @ [OnFeedbackProvided Negative (Some (feedbackMessage s))]\<rparr>
                else s)
      in s1\<lparr>isFeedbackDialogOpen := False, feedbackMessage := []\<rparr>)"

text \<open>\<^verbatim>\<open>onDismiss\<close> of the dialog and \<^verbatim>\<open>onClick\<close> of its cancel button are the same lambda.\<close>

definition onDismiss :: "state \<Rightarrow> state" where
  "onDismiss s = s\<lparr>isFeedbackDialogOpen := False\<rparr>"

definition onCancelClick :: "state \<Rightarrow> state" where
  "onCancelClick s = s\<lparr>isFeedbackDialogOpen := False\<rparr>"

text \<open>\<^verbatim>\<open>onChange\<close> of the text field: \<^verbatim>\<open>setFeedbackMessage(newValue || "")\<close>.\<close>

definition onChange :: "jsstring option \<Rightarrow> state \<Rightarrow> state" where
  "onChange newValue s =
     s\<lparr>feedbackMessage :=
         (case newValue of None \<Rightarrow> [] | Some v \<Rightarrow> if truthy v then v else [])\<rparr>"

subsection \<open>What a render shows\<close>

datatype color = Black | DarkGreen | DarkRed

datatype icon = CheckMark | Copy

text \<open>
  A rendered \<^verbatim>\<open><a>\<close>: its key, title and text, and the call its \<^verbatim>\<open>onClick\<close> makes.
\<close>

record link =
  linkKey :: nat
  linkTitle :: jsstring
  linkText :: jsstring
  linkOnClick :: call

text \<open>
  \<^verbatim>\<open>getCitationFilePath\<close> is imported from \<^verbatim>\<open>../../api\<close> and not in the source tree: it
  is the parameter \<open>gp\<close>. \<^verbatim>\<open>++i\<close> in the template makes the number shown \<open>i + 1\<close>. The file
  does not import React, so its JSX is compiled by the automatic runtime to
  \<^verbatim>\<open>jsx("a", {..., children: `${++i}. ${x}`}, i)\<close>: the key is read after the increment and
  is \<open>i + 1\<close> as well.
\<close>

definition citationLinks :: "(jsstring \<Rightarrow> jsstring) \<Rightarrow> jsstring list \<Rightarrow> link list" where
  "citationLinks gp cs =
     map (\<lambda>(i, x).
            let path = gp x in
            \<lparr>linkKey = Suc i, linkTitle = x, linkText = decimal (Suc i) @ js ''. '' @ x,
             linkOnClick = OnCitationClicked path\<rparr>)
         (enumerate 0 cs)"

definition citationBlock :: "(jsstring \<Rightarrow> jsstring) \<Rightarrow> props \<Rightarrow> link list option" where
  "citationBlock gp p =
     (if length (citations p) \<noteq> 0 then Some (citationLinks gp (citations p)) else None)"

definition followupLinks :: "jsstring list \<Rightarrow> link list" where
  "followupLinks qs =
     map (\<lambda>(i, x).
            \<lparr>linkKey = i, linkTitle = x, linkText = x,
             linkOnClick = OnFollowupQuestionClicked x\<rparr>)
         (enumerate 0 qs)"

text \<open>
  \<^verbatim>\<open>!!followupQuestions?.length && showFollowupQuestions && onFollowupQuestionClicked\<close>:
  an absent list and an absent flag are falsy. No expression of these links changes
  \<open>i\<close>, so their key is the index.
\<close>

definition followupBlock :: "props \<Rightarrow> link list option" where
  "followupBlock p =
     (case followupQuestions p of
        None \<Rightarrow> None
      | Some qs \<Rightarrow>
          if length qs \<noteq> 0 \<and> showFollowupQuestions p = Some True \<and> onFollowupQuestionClicked p
          then Some (followupLinks qs) else None)"

record view =
  copyIcon :: icon
  thoughtProcessDisabled :: bool
  supportingContentDisabled :: bool
  feedbackButtons :: "(color \<times> color) option"
  citationList :: "link list option"
  followupList :: "link list option"
  dialogHidden :: bool
  textFieldValue :: jsstring
  submitDisabled :: bool

text \<open>\<open>feedbackButtons\<close> holds the colours of the like and the dislike button.\<close>

definition render :: "(jsstring \<Rightarrow> jsstring) \<Rightarrow> props \<Rightarrow> state \<Rightarrow> view" where
  "render gp p s =
     \<lparr>copyIcon = (if copied s then CheckMark else Copy),
      thoughtProcessDisabled = (case thoughtsLength p of None \<Rightarrow> True | Some n \<Rightarrow> n = 0),
      supportingContentDisabled = (\<not> dataPoints p),
      feedbackButtons =
        (if onFeedbackProvided p
         then Some (if feedbackState s = Positive then DarkGreen else Black,
                    if feedbackState s = Negative then DarkRed else Black)
         else None),
      citationList = citationBlock gp p,
      followupList = followupBlock p,
      dialogHidden = (\<not> isFeedbackDialogOpen s),
      textFieldValue = feedbackMessage s,
      submitDisabled = (\<not> truthy (trim (feedbackMessage s)))\<rparr>"

subsection \<open>Events\<close>

text \<open>
  What can happen to a mounted component: a click on a control it renders, a change of
  the dialog's text field, the settlement of a clipboard promise, the passing of time.
  An event is available when its control is rendered and enabled in the current view.
\<close>

datatype event =
    ClickCopy
  | ClipboardResolves
  | ClipboardRejects jsstring
  | TimePasses nat
  | ClickThoughtProcess
  | ClickSupportingContent
  | ClickLike
  | ClickDislike
  | DismissDialog
  | ClickCancel
  | ClickSubmit
  | ChangeMessage "jsstring option"
  | ClickCitation nat
  | ClickFollowup nat

text \<open>
  Modelled from the spec: the \<^verbatim>\<open>Dialog\<close> of the widget library, which is not in the source
  tree, is modal, so while it is shown the controls behind it receive no click. The flag
  \<open>modal\<close> switches that on; with \<open>modal = False\<close> every rendered control stays
  available.
\<close>

definition behindDialog :: "bool \<Rightarrow> view \<Rightarrow> bool" where
  "behindDialog modal v = (modal \<and> \<not> dialogHidden v)"

definition clickable :: "link list option \<Rightarrow> nat \<Rightarrow> bool" where
  "clickable block i = (case block of None \<Rightarrow> False | Some links \<Rightarrow> i < length links)"

fun available :: "bool \<Rightarrow> view \<Rightarrow> state \<Rightarrow> event \<Rightarrow> bool" where
  "available modal v s ClickCopy = (\<not> behindDialog modal v)"
| "available modal v s ClipboardResolves = (0 < pendingWrites s)"
| "available modal v s (ClipboardRejects err) = (0 < pendingWrites s)"
| "available modal v s (TimePasses d) = True"
| "available modal v s ClickThoughtProcess = (\<not> thoughtProcessDisabled v \<and> \<not> behindDialog modal v)"
| "available modal v s ClickSupportingContent =
     (\<not> supportingContentDisabled v \<and> \<not> behindDialog modal v)"
| "available modal v s ClickLike = (feedbackButtons v \<noteq> None \<and> \<not> behindDialog modal v)"
| "available modal v s ClickDislike = (feedbackButtons v \<noteq> None \<and> \<not> behindDialog modal v)"
| "available modal v s DismissDialog = (\<not> dialogHidden v)"
| "available modal v s ClickCancel = (\<not> dialogHidden v)"
| "available modal v s ClickSubmit = (\<not> dialogHidden v \<and> \<not> submitDisabled v)"
| "available modal v s (ChangeMessage newValue) = (\<not> dialogHidden v)"
| "available modal v s (ClickCitation i) = (clickable (citationList v) i \<and> \<not> behindDialog modal v)"
| "available modal v s (ClickFollowup i) = (clickable (followupList v) i \<and> \<not> behindDialog modal v)"

definition clickLink :: "link list option \<Rightarrow> nat \<Rightarrow> state \<Rightarrow> state" where
  "clickLink block i s =
     (case block of
        None \<Rightarrow> s
      | Some links \<Rightarrow> if i < length links then s\<lparr>calls := calls s @ [linkOnClick (links ! i)]\<rparr> else s)"

fun handle :: "props \<Rightarrow> view \<Rightarrow> event \<Rightarrow> state \<Rightarrow> state" where
  "handle p v ClickCopy s =
     (case handleCopy p s of Inl e \<Rightarrow> s\<lparr>calls := calls s @ [Uncaught e]\<rparr> | Inr s' \<Rightarrow> s')"
| "handle p v ClipboardResolves s = copyResolved (s\<lparr>pendingWrites := pendingWrites s - 1\<rparr>)"
| "handle p v (ClipboardRejects err) s = copyRejected err (s\<lparr>pendingWrites := pendingWrites s - 1\<rparr>)"
| "handle p v (TimePasses d) s = timePasses d s"
| "handle p v ClickThoughtProcess s = s\<lparr>calls := calls s @ [OnThoughtProcessClicked]\<rparr>"
| "handle p v ClickSupportingContent s = s\<lparr>calls := calls s @ [OnSupportingContentClicked]\<rparr>"
| "handle p v ClickLike s = handleFeedback p Positive s"
| "handle p v ClickDislike s = handleFeedback p Negative s"
| "handle p v DismissDialog s = onDismiss s"
| "handle p v ClickCancel s = onCancelClick s"
| "handle p v ClickSubmit s = handleFeedbackSubmit p s"
| "handle p v (ChangeMessage newValue) s = onChange newValue s"
| "handle p v (ClickCitation i) s = clickLink (citationList v) i s"
| "handle p v (ClickFollowup i) s = clickLink (followupList v) i s"

text \<open>One event: \<open>None\<close> when the current view does not offer it.\<close>

definition step ::
  "bool \<Rightarrow> (jsstring \<Rightarrow> jsstring) \<Rightarrow> props \<Rightarrow> event \<Rightarrow> state \<Rightarrow> state option" where
  "step modal gp p e s =
     (let v = render gp p s in
      if available modal v s e then Some (handle p v e s) else None)"

text \<open>A sequence of events, each handled in the render the last one left.\<close>

fun run ::
  "bool \<Rightarrow> (jsstring \<Rightarrow> jsstring) \<Rightarrow> props \<Rightarrow> event list \<Rightarrow> state \<Rightarrow> state option" where
  "run modal gp p [] s = Some s"
| "run modal gp p (e # es) s =
     (case step modal gp p e s of None \<Rightarrow> None | Some s' \<Rightarrow> run modal gp p es s')"

text \<open>The events that end a pending dialog.\<close>

fun closesDialog :: "event \<Rightarrow> bool" where
  "closesDialog DismissDialog = True"
| "closesDialog ClickCancel = True"
| "closesDialog ClickSubmit = True"
| "closesDialog e = False"

subsection \<open>A concrete component\<close>

text \<open>
  Props used to run the model on concrete input: the answer of the spec's copy example,
  two citations, one follow-up question, two thoughts, data points, every callback
  supplied, the clipboard defined.
\<close>

definition exampleProps :: props where
  "exampleProps =
     \<lparr>sanitizedAnswerHtml = js ''<a href=x><sup>1</sup></a>Hello <b>world</b>'',
      citations = [js ''a.pdf'', js ''b.pdf''],
      followupQuestions = Some [js ''Why?''],
      thoughtsLength = Some 2,
      dataPoints = True,
      onFollowupQuestionClicked = True,
      onFeedbackProvided = True,
      showFollowupQuestions = Some True,
      clipboardDefined = True\<rparr>"

text \<open>
  A call of the feedback callback that carries a message which is blank, or carries a
  message with a feedback other than Negative.
\<close>

fun blankCall :: "call \<Rightarrow> bool" where
  "blankCall (OnFeedbackProvided f (Some m)) = (trim m = [] \<or> f \<noteq> Negative)"
| "blankCall c = False"

text \<open>The links of a block: none when the block is not rendered.\<close>

definition shown :: "link list option \<Rightarrow> link list" where
  "shown block = (case block of None \<Rightarrow> [] | Some links \<Rightarrow> links)"

text \<open>The number a string of decimal digits denotes.\<close>

definition decimalValue :: "jsstring \<Rightarrow> nat" where
  "decimalValue ds = foldl (\<lambda>a c. 10 * a + (unat c - 48)) 0 ds"

text \<open>A path resolver to run the model with.\<close>

definition examplePath :: "jsstring \<Rightarrow> jsstring" where
  "examplePath x = js ''/content/'' @ x"



text \<open>The double quote, which a literal cannot hold.\<close>

definition DQ :: "16 word" where
  "DQ = 0x22"

text \<open>
  \<^verbatim>\<open><a title="a>b"><sup>1</sup></a>\<close>: citation markup whose title holds a \<^verbatim>\<open>>\<close>, as the
  sanitizer returns it for a citation named \<^verbatim>\<open>a>b\<close>.
\<close>

definition citationWithGt :: jsstring where
  "citationWithGt = js ''<a title='' @ [DQ] @ js ''a>b'' @ [DQ] @ js ''><sup>1</sup></a>''"


lemmas handler_defs =
  handleCopy_def copyResolved_def copyRejected_def timePasses_def handleFeedback_def
  handleFeedbackSubmit_def onDismiss_def onCancelClick_def onChange_def clickLink_def

section \<open>Feedback\<close>

text \<open>
  C1, as the spec states it, fails: selecting Negative does update the feedback state at
  once. From the initial state (Neutral) with a callback supplied, after
  \<^verbatim>\<open>handleFeedback(Feedback.Negative)\<close> the dialog is open, nothing has been submitted, and
  the feedback state and the rendered colours of the feedback buttons differ from those
  before the selection.
\<close>

theorem handleFeedback_Negative_counterexample:
  "isFeedbackDialogOpen (handleFeedback exampleProps Negative initialState) \<and>
   feedbackState (handleFeedback exampleProps Negative initialState) \<noteq> feedbackState initialState \<and>
   feedbackButtons (render id exampleProps (handleFeedback exampleProps Negative initialState))
     \<noteq> feedbackButtons (render id exampleProps initialState)"
  by (simp add: handleFeedback_def exampleProps_def initialState_def render_def)

text \<open>
  C1, amended: with a feedback callback supplied, selecting Negative opens the dialog and
  sets the feedback state to Negative at once (line 73), before any submit: the dislike
  button is rendered dark red and the like button black. The selection itself invokes
  no callback. The feedback state equals the one before the selection exactly when that
  was Negative already.
\<close>

theorem handleFeedback_Negative:
  assumes "onFeedbackProvided p"
  shows "isFeedbackDialogOpen (handleFeedback p Negative s) \<and>
         feedbackState (handleFeedback p Negative s) = Negative \<and>
         feedbackButtons (render gp p (handleFeedback p Negative s)) = Some (Black, DarkRed) \<and>
         calls (handleFeedback p Negative s) = calls s \<and>
         (feedbackState (handleFeedback p Negative s) = feedbackState s) = (feedbackState s = Negative)"
  using assms by (auto simp: handleFeedback_def render_def)

theorem handleFeedback_Negative_witness:
  "onFeedbackProvided exampleProps \<and>
   isFeedbackDialogOpen (handleFeedback exampleProps Negative initialState) \<and>
   feedbackState (handleFeedback exampleProps Negative initialState) = Negative \<and>
   feedbackState initialState = Neutral"
proof -
  have h: "onFeedbackProvided exampleProps" by (simp add: exampleProps_def)
  show ?thesis using h handleFeedback_Negative [OF h, where gp = id and s = initialState]
    by (simp add: initialState_def)
qed

text \<open>
  C2, as the spec states it, fails: after selecting Negative in the initial state
  (Neutral) and cancelling, by the cancel button or by dismissing the dialog, the
  feedback state is not the one that held before the selection.
\<close>

theorem cancel_counterexample:
  "feedbackState (onCancelClick (handleFeedback exampleProps Negative initialState))
     \<noteq> feedbackState initialState \<and>
   feedbackState (onDismiss (handleFeedback exampleProps Negative initialState))
     \<noteq> feedbackState initialState"
  by (simp add: handleFeedback_def exampleProps_def initialState_def onCancelClick_def
        onDismiss_def)

text \<open>
  C2, amended: cancelling the dialog (cancel button or dismissal) invokes no callback,
  closes the dialog and leaves the feedback state as it was when the dialog was
  cancelled. After selecting Negative in a state \<open>s\<close> and then cancelling, the callback
  has not been called and the feedback state is Negative; it equals the state of \<open>s\<close>
  exactly when that was Negative already.
\<close>

theorem cancel_keeps_pending_state:
  assumes "onFeedbackProvided p"
  shows "calls (onCancelClick t) = calls t \<and> calls (onDismiss t) = calls t \<and>
         feedbackState (onCancelClick t) = feedbackState t \<and>
         feedbackState (onDismiss t) = feedbackState t \<and>
         \<not> isFeedbackDialogOpen (onCancelClick t) \<and> \<not> isFeedbackDialogOpen (onDismiss t) \<and>
         calls (onCancelClick (handleFeedback p Negative s)) = calls s \<and>
         calls (onDismiss (handleFeedback p Negative s)) = calls s \<and>
         feedbackState (onCancelClick (handleFeedback p Negative s)) = Negative \<and>
         feedbackState (onDismiss (handleFeedback p Negative s)) = Negative \<and>
         (feedbackState (onCancelClick (handleFeedback p Negative s)) = feedbackState s)
           = (feedbackState s = Negative) \<and>
         (feedbackState (onDismiss (handleFeedback p Negative s)) = feedbackState s)
           = (feedbackState s = Negative)"
  using assms by (auto simp: handleFeedback_def onCancelClick_def onDismiss_def)

theorem cancel_keeps_pending_state_witness:
  "run True id exampleProps [ClickLike, ClickDislike, ClickCancel] initialState =
     Some (initialState\<lparr>feedbackState := Negative, calls := [OnFeedbackProvided Positive None]\<rparr>)"
proof -
  have h: "onFeedbackProvided exampleProps" by (simp add: exampleProps_def)
  define s where "s = handleFeedback exampleProps Positive initialState"
  have s: "s = initialState\<lparr>feedbackState := Positive, calls := [OnFeedbackProvided Positive None]\<rparr>"
    by (simp add: s_def handleFeedback_def h initialState_def)
  have r: "run True id exampleProps [ClickLike, ClickDislike, ClickCancel] initialState =
     Some (onCancelClick (handleFeedback exampleProps Negative s))"
    by (simp add: s step_def render_def behindDialog_def h handleFeedback_def initialState_def)
  have "onCancelClick (handleFeedback exampleProps Negative s) =
     initialState\<lparr>feedbackState := Negative, calls := [OnFeedbackProvided Positive None]\<rparr>"
    using cancel_keeps_pending_state [OF h, where s = s and t = s]
    by (simp add: s handleFeedback_def h onCancelClick_def initialState_def)
  with r show ?thesis by simp
qed

text \<open>
  C3: starting from Neutral, with a feedback callback supplied, selecting Positive twice
  in succession leaves the feedback state Neutral, and the callback has been invoked
  exactly twice more: first with Positive, then with Neutral (no message either time).
\<close>

theorem Positive_twice:
  assumes "onFeedbackProvided p" and "feedbackState s = Neutral"
  shows "feedbackState (handleFeedback p Positive (handleFeedback p Positive s)) = Neutral \<and>
         calls (handleFeedback p Positive (handleFeedback p Positive s)) =
           calls s @ [OnFeedbackProvided Positive None, OnFeedbackProvided Neutral None]"
  using assms by (simp add: handleFeedback_def Let_def)

theorem Positive_twice_witness:
  "run True id exampleProps [ClickLike, ClickLike] initialState =
     Some (initialState\<lparr>calls := [OnFeedbackProvided Positive None, OnFeedbackProvided Neutral None]\<rparr>)"
proof -
  have h: "onFeedbackProvided exampleProps" by (simp add: exampleProps_def)
  have n: "feedbackState initialState = Neutral" by (simp add: initialState_def)
  have a: "available True (render id exampleProps initialState) initialState ClickLike"
    by (simp add: render_def h behindDialog_def initialState_def)
  have b: "available True (render id exampleProps (handleFeedback exampleProps Positive initialState))
             (handleFeedback exampleProps Positive initialState) ClickLike"
    by (simp add: render_def h behindDialog_def initialState_def handleFeedback_def)
  have e: "handleFeedback exampleProps Positive (handleFeedback exampleProps Positive initialState)
      = initialState\<lparr>calls := [OnFeedbackProvided Positive None, OnFeedbackProvided Neutral None]\<rparr>"
    using Positive_twice [OF h n] by (simp add: handleFeedback_def h initialState_def)
  show ?thesis using a b e by (simp add: step_def)
qed

text \<open>
  C4: with a feedback callback supplied, selecting Negative invokes no callback.
  Submitting the dialog while the message field holds \<open>m\<close> invokes the callback exactly
  once, with Negative and \<open>m\<close>, closes the dialog and resets the message field to the
  empty string.
\<close>

theorem submit_notifies_once:
  assumes "onFeedbackProvided p" and "feedbackMessage s = m"
  shows "calls (handleFeedback p Negative s) = calls s \<and>
         calls (handleFeedbackSubmit p s) = calls s @ [OnFeedbackProvided Negative (Some m)] \<and>
         \<not> isFeedbackDialogOpen (handleFeedbackSubmit p s) \<and>
         feedbackMessage (handleFeedbackSubmit p s) = []"
  using assms by (simp add: handleFeedback_def handleFeedbackSubmit_def)

theorem submit_notifies_once_witness:
  "run True id exampleProps
     [ClickDislike, ChangeMessage (Some (js ''too slow'')), ClickSubmit] initialState =
     Some (initialState\<lparr>feedbackState := Negative,
             calls := [OnFeedbackProvided Negative (Some (js ''too slow''))]\<rparr>)"
proof -
  have h: "onFeedbackProvided exampleProps" by (simp add: exampleProps_def)
  define s where "s = onChange (Some (js ''too slow'')) (handleFeedback exampleProps Negative initialState)"
  have s: "s = initialState\<lparr>feedbackState := Negative, isFeedbackDialogOpen := True,
                 feedbackMessage := js ''too slow''\<rparr>"
    by (simp add: s_def handleFeedback_def h onChange_def truthy_def js_def initialState_def)
  have m: "feedbackMessage s = js ''too slow''" by (simp add: s)
  have t: "trim (js ''too slow'') \<noteq> []" by (simp add: trim_def js_def isWhiteSpace_def)
  have ne: "js ''too slow'' \<noteq> []" by (simp add: js_def)
  have r: "run True id exampleProps
     [ClickDislike, ChangeMessage (Some (js ''too slow'')), ClickSubmit] initialState =
     Some (handleFeedbackSubmit exampleProps s)"
    using t ne by (simp add: s step_def render_def behindDialog_def h handleFeedback_def
          onChange_def truthy_def initialState_def)
  have "handleFeedbackSubmit exampleProps s =
     initialState\<lparr>feedbackState := Negative,
        calls := [OnFeedbackProvided Negative (Some (js ''too slow''))]\<rparr>"
    using submit_notifies_once [OF h m]
    by (simp add: s handleFeedbackSubmit_def h initialState_def)
  with r show ?thesis by simp
qed

subsection \<open>The dialog is open only while a Negative selection is pending\<close>

lemma run_snoc:
  "run modal gp p (evs @ [e]) s =
     (case run modal gp p evs s of None \<Rightarrow> None | Some s' \<Rightarrow> step modal gp p e s')"
  by (induction evs arbitrary: s) (auto split: option.splits)

lemma step_dialog:
  assumes "step True gp p e s = Some s'"
  shows "(e = ClickDislike \<longrightarrow> isFeedbackDialogOpen s' \<and> feedbackState s' = Negative) \<and>
         (closesDialog e \<longrightarrow> \<not> isFeedbackDialogOpen s') \<and>
         (e \<noteq> ClickDislike \<and> \<not> closesDialog e \<longrightarrow>
            isFeedbackDialogOpen s' = isFeedbackDialogOpen s \<and>
            (isFeedbackDialogOpen s \<longrightarrow> feedbackState s' = feedbackState s))"
  using assms
  by (cases e)
     (auto simp: step_def render_def behindDialog_def handler_defs Let_def
           split: if_splits option.splits)

text \<open>
  C5: in every state the component reaches from its initial state by events its view
  offers (the dialog being modal), the feedback dialog is open only if the feedback
  state is Negative and the trace ends in a selection of Negative that no submit,
  cancel or dismissal has followed. In particular no such state has the dialog open
  with the feedback state Neutral or Positive.
\<close>

theorem dialog_open_only_pending_Negative:
  assumes "run True gp p evs initialState = Some s" and "isFeedbackDialogOpen s"
  shows "feedbackState s = Negative \<and>
         (\<exists>pre post. evs = pre @ ClickDislike # post \<and> \<not> list_ex closesDialog post)"
  using assms
proof (induction evs arbitrary: s rule: rev_induct)
  case Nil
  then show ?case by (auto simp: initialState_def)
next
  case (snoc e evs)
  from snoc.prems(1) obtain t where t: "run True gp p evs initialState = Some t"
    and st: "step True gp p e t = Some s"
    by (auto simp: run_snoc split: option.splits)
  note d = step_dialog [OF st]
  show ?case
  proof (cases "e = ClickDislike")
    case True
    then have "evs @ [e] = evs @ ClickDislike # [] \<and> \<not> list_ex closesDialog []" by simp
    then have "\<exists>pre post. evs @ [e] = pre @ ClickDislike # post \<and> \<not> list_ex closesDialog post"
      by blast
    with d True show ?thesis by simp
  next
    case False
    with d snoc.prems(2) have nc: "\<not> closesDialog e" by blast
    with d False snoc.prems(2) have o: "isFeedbackDialogOpen t"
      and f: "feedbackState s = feedbackState t" by auto
    from snoc.IH [OF t o] obtain pre post where n: "feedbackState t = Negative"
      and sp: "evs = pre @ ClickDislike # post" and cl: "\<not> list_ex closesDialog post"
      by blast
    from sp cl nc have "evs @ [e] = pre @ ClickDislike # (post @ [e]) \<and>
        \<not> list_ex closesDialog (post @ [e])" by simp
    then have "\<exists>pre post. evs @ [e] = pre @ ClickDislike # post \<and> \<not> list_ex closesDialog post"
      by blast
    with n f show ?thesis by simp
  qed
qed

theorem dialog_open_only_pending_Negative_witness:
  "map_option (\<lambda>s. (isFeedbackDialogOpen s, feedbackState s))
     (run True id exampleProps [ClickLike, ClickDislike, ChangeMessage (Some (js ''too slow''))] initialState)
     = Some (True, Negative)"
proof -
  obtain s where r: "run True id exampleProps [ClickLike, ClickDislike, ChangeMessage (Some (js ''too slow''))] initialState = Some s"
    and o: "isFeedbackDialogOpen s"
    by (simp add: step_def render_def behindDialog_def handler_defs exampleProps_def
        initialState_def citationBlock_def followupBlock_def)
  from dialog_open_only_pending_Negative [OF r o] r o show ?thesis by simp
qed

text \<open>
  The modality of the dialog is what keeps the invariant: the handlers alone do not.
  Were the like button to receive a click while the dialog is shown, the dialog would
  stay open with the feedback state Positive.
\<close>

lemma nonmodal_dialog_open_Positive:
  "map_option (\<lambda>s. (isFeedbackDialogOpen s, feedbackState s))
     (run False id exampleProps [ClickDislike, ClickLike] initialState) = Some (True, Positive)"
  by (simp add: step_def render_def behindDialog_def handler_defs exampleProps_def
        initialState_def citationBlock_def followupBlock_def)

subsection \<open>No blank message is submitted\<close>

lemma dropWhile_all: "(\<forall>x\<in>set (dropWhile P xs). P x) = (\<forall>x\<in>set xs. P x)"
proof
  assume a: "\<forall>x\<in>set (dropWhile P xs). P x"
  have "dropWhile P xs = []"
  proof (rule ccontr)
    assume n: "dropWhile P xs \<noteq> []"
    then have "\<not> P (hd (dropWhile P xs))" by (rule hd_dropWhile)
    moreover from n have "hd (dropWhile P xs) \<in> set (dropWhile P xs)" by simp
    ultimately show False using a by blast
  qed
  then show "\<forall>x\<in>set xs. P x" by (simp add: dropWhile_eq_Nil_conv)
next
  assume "\<forall>x\<in>set xs. P x"
  then show "\<forall>x\<in>set (dropWhile P xs). P x" by (auto dest: set_dropWhileD)
qed

lemma trim_empty_iff: "(trim m = []) = (\<forall>c\<in>set m. isWhiteSpace c)"
  by (simp add: trim_def dropWhile_eq_Nil_conv dropWhile_all)

lemma step_blank:
  assumes "step modal gp p e s = Some s'" and "\<not> list_ex blankCall (calls s)"
  shows "\<not> list_ex blankCall (calls s')"
  using assms
  by (cases e)
     (auto simp: step_def render_def behindDialog_def handler_defs Let_def truthy_def
         citationBlock_def followupBlock_def citationLinks_def followupLinks_def clickable_def
         nth_enumerate_eq list_ex_iff
           split: if_splits option.splits)


lemma run_blank:
  assumes "run modal gp p evs s = Some s'" and "\<not> list_ex blankCall (calls s)"
  shows "\<not> list_ex blankCall (calls s')"
  using assms
proof (induction evs arbitrary: s)
  case Nil
  then show ?case by simp
next
  case (Cons e evs)
  from Cons.prems(1) obtain t where st: "step modal gp p e s = Some t"
    and r: "run modal gp p evs t = Some s'"
    by (auto split: option.splits)
  from step_blank [OF st Cons.prems(2)] have "\<not> list_ex blankCall (calls t)" .
  from Cons.IH [OF r this] show ?case .
qed

text \<open>
  C10: the submit button is disabled exactly when every code unit of the message is
  white space (the empty message included), and the submit event is offered only while
  the dialog is shown and the trimmed message is non-empty. So in every state reached
  from the initial state, every call of the feedback callback that carries a message
  is a Negative one whose message, trimmed, is non-empty.
\<close>

theorem submit_never_blank:
  assumes "run modal gp p evs initialState = Some s"
    and "OnFeedbackProvided f (Some m) \<in> set (calls s)"
  shows "submitDisabled (render gp p t) = (\<forall>c\<in>set (feedbackMessage t). isWhiteSpace c) \<and>
         available modal (render gp p t) t ClickSubmit =
           (isFeedbackDialogOpen t \<and> trim (feedbackMessage t) \<noteq> []) \<and>
         f = Negative \<and> trim m \<noteq> [] \<and> \<not> (\<forall>c\<in>set m. isWhiteSpace c)"
proof -
  have i: "\<not> list_ex blankCall (calls initialState)" by (simp add: initialState_def)
  from run_blank [OF assms(1) i] assms(2)
  have "\<not> blankCall (OnFeedbackProvided f (Some m))" by (auto simp: list_ex_iff)
  then have "f = Negative \<and> trim m \<noteq> []" by simp
  then show ?thesis by (simp add: trim_empty_iff render_def truthy_def)
qed

theorem submit_never_blank_witness:
  "map_option calls (run True id exampleProps
      [ClickDislike, ChangeMessage (Some (js ''too slow'')), ClickSubmit] initialState)
     = Some [OnFeedbackProvided Negative (Some (js ''too slow''))] \<and>
   trim (js ''too slow'') \<noteq> [] \<and>
   step True id exampleProps ClickSubmit
     (initialState\<lparr>isFeedbackDialogOpen := True, feedbackMessage := js ''  ''\<rparr>) = None"
proof -
  obtain s where r: "run True id exampleProps
      [ClickDislike, ChangeMessage (Some (js ''too slow'')), ClickSubmit] initialState = Some s"
    and c: "calls s = [OnFeedbackProvided Negative (Some (js ''too slow''))]"
    by (simp add: step_def render_def behindDialog_def handler_defs exampleProps_def
        initialState_def citationBlock_def followupBlock_def truthy_def trim_def js_def
        isWhiteSpace_def)
  from c have m: "OnFeedbackProvided Negative (Some (js ''too slow'')) \<in> set (calls s)" by simp
  have n: "step True id exampleProps ClickSubmit
     (initialState\<lparr>isFeedbackDialogOpen := True, feedbackMessage := js ''  ''\<rparr>) = None"
    by (simp add: step_def render_def truthy_def trim_def js_def isWhiteSpace_def)
  from submit_never_blank [OF r m] r c n show ?thesis by simp
qed

section \<open>Copy to clipboard\<close>

lemma literal_iff: "(literal p s = Some r) = (s = p @ r)"
  by (induction p s rule: literal.induct) auto

lemma matchTag_iff:
  "(matchTag s = Some r) =
     (\<exists>body. s = LT # body @ GT # r \<and> body \<noteq> [] \<and> GT \<notin> set body)"
proof
  assume "matchTag s = Some r"
  then obtain r1 where s: "s = LT # r1" and b: "takeWhile (\<lambda>c. c \<noteq> GT) r1 \<noteq> []"
    and d: "dropWhile (\<lambda>c. c \<noteq> GT) r1 = GT # r"
    by (auto simp: matchTag_def literal_iff split: option.splits if_splits)
  have "r1 = takeWhile (\<lambda>c. c \<noteq> GT) r1 @ dropWhile (\<lambda>c. c \<noteq> GT) r1" by simp
  with d have "r1 = takeWhile (\<lambda>c. c \<noteq> GT) r1 @ GT # r" by simp
  moreover have "GT \<notin> set (takeWhile (\<lambda>c. c \<noteq> GT) r1)" by (auto dest: set_takeWhileD)
  ultimately show "\<exists>body. s = LT # body @ GT # r \<and> body \<noteq> [] \<and> GT \<notin> set body"
    using s b by blast
next
  assume "\<exists>body. s = LT # body @ GT # r \<and> body \<noteq> [] \<and> GT \<notin> set body"
  then obtain body where s: "s = LT # body @ GT # r" and b: "body \<noteq> []" and g: "GT \<notin> set body"
    by blast
  from g have t: "takeWhile (\<lambda>c. c \<noteq> GT) (body @ GT # r) = body"
    by (subst takeWhile_append2) auto
  from g have d: "dropWhile (\<lambda>c. c \<noteq> GT) (body @ GT # r) = GT # r"
    by (subst dropWhile_append2) auto
  show "matchTag s = Some r" using s b t d by (simp add: matchTag_def)
qed

text \<open>
  The two matchers against the expression read as a language: the first alternative
  matches \<^verbatim>\<open><a \<close>, code units other than \<^verbatim>\<open>>\<close>, \<^verbatim>\<open>><sup>\<close>, one or more digits and
  \<^verbatim>\<open></sup></a>\<close>; the second \<^verbatim>\<open><\<close>, one or more code units other than \<^verbatim>\<open>>\<close>, and \<^verbatim>\<open>>\<close>.
\<close>

lemma matchCitation_iff:
  "(matchCitation s = Some r) =
     (\<exists>attrs ds. s = js ''<a '' @ attrs @ js ''><sup>'' @ ds @ js ''</sup></a>'' @ r \<and>
        GT \<notin> set attrs \<and> ds \<noteq> [] \<and> list_all isDigit ds)"
proof
  assume "matchCitation s = Some r"
  then obtain r1 r2 where s: "s = js ''<a '' @ r1"
    and d: "dropWhile (\<lambda>c. c \<noteq> GT) r1 = js ''><sup>'' @ r2"
    and n: "takeWhile isDigit r2 \<noteq> []"
    and e: "dropWhile isDigit r2 = js ''</sup></a>'' @ r"
    by (auto simp: matchCitation_def literal_iff split: option.splits if_splits)
  have "r1 = takeWhile (\<lambda>c. c \<noteq> GT) r1 @ dropWhile (\<lambda>c. c \<noteq> GT) r1" by simp
  with d have r1: "r1 = takeWhile (\<lambda>c. c \<noteq> GT) r1 @ js ''><sup>'' @ r2" by simp
  have "r2 = takeWhile isDigit r2 @ dropWhile isDigit r2" by simp
  with e have r2: "r2 = takeWhile isDigit r2 @ js ''</sup></a>'' @ r" by simp
  have g: "GT \<notin> set (takeWhile (\<lambda>c. c \<noteq> GT) r1)" by (auto dest: set_takeWhileD)
  have a: "list_all isDigit (takeWhile isDigit r2)"
    by (auto simp: list_all_iff dest: set_takeWhileD)
  from s r1 r2 have "s = js ''<a '' @ takeWhile (\<lambda>c. c \<noteq> GT) r1 @ js ''><sup>'' @
      takeWhile isDigit r2 @ js ''</sup></a>'' @ r" by metis
  with g n a show "\<exists>attrs ds. s = js ''<a '' @ attrs @ js ''><sup>'' @ ds @ js ''</sup></a>'' @ r \<and>
        GT \<notin> set attrs \<and> ds \<noteq> [] \<and> list_all isDigit ds" by blast
next
  assume "\<exists>attrs ds. s = js ''<a '' @ attrs @ js ''><sup>'' @ ds @ js ''</sup></a>'' @ r \<and>
        GT \<notin> set attrs \<and> ds \<noteq> [] \<and> list_all isDigit ds"
  then obtain attrs ds where s: "s = js ''<a '' @ attrs @ js ''><sup>'' @ ds @ js ''</sup></a>'' @ r"
    and g: "GT \<notin> set attrs" and n: "ds \<noteq> []" and a: "list_all isDigit ds"
    by blast
  have h1: "js ''><sup>'' = GT # js ''<sup>''" by (simp add: js_def GT_def)
  have h2: "js ''</sup></a>'' = LT # js ''/sup></a>''" by (simp add: js_def LT_def)
  have nd: "\<not> isDigit LT" by (simp add: isDigit_def LT_def)
  from g have d1: "dropWhile (\<lambda>c. c \<noteq> GT) (attrs @ js ''><sup>'' @ ds @ js ''</sup></a>'' @ r)
      = js ''><sup>'' @ ds @ js ''</sup></a>'' @ r"
    unfolding h1 by (subst dropWhile_append2) auto
  from a nd have t2: "takeWhile isDigit (ds @ js ''</sup></a>'' @ r) = ds"
    unfolding h2 by (subst takeWhile_append2) (auto simp: list_all_iff)
  from a nd have d2: "dropWhile isDigit (ds @ js ''</sup></a>'' @ r) = js ''</sup></a>'' @ r"
    unfolding h2 by (subst dropWhile_append2) (auto simp: list_all_iff)
  have l1: "literal (js ''<a '') s = Some (attrs @ js ''><sup>'' @ ds @ js ''</sup></a>'' @ r)"
    unfolding literal_iff s ..
  have l2: "literal (js ''><sup>'') (js ''><sup>'' @ ds @ js ''</sup></a>'' @ r)
      = Some (ds @ js ''</sup></a>'' @ r)"
    unfolding literal_iff ..
  have l3: "literal (js ''</sup></a>'') (js ''</sup></a>'' @ r) = Some r"
    unfolding literal_iff ..
  show "matchCitation s = Some r"
    unfolding matchCitation_def l1 option.case d1 l2 t2 d2 l3 using n by simp
qed

lemma matchCitation_tag: "matchCitation s = Some r \<Longrightarrow> matchTag s \<noteq> None"
proof -
  assume "matchCitation s = Some r"
  then obtain r1 r2 where s: "s = js ''<a '' @ r1"
    and d: "dropWhile (\<lambda>c. c \<noteq> GT) r1 = js ''><sup>'' @ r2"
    by (auto simp: matchCitation_def literal_iff split: option.splits if_splits)
  have "r1 = takeWhile (\<lambda>c. c \<noteq> GT) r1 @ dropWhile (\<lambda>c. c \<noteq> GT) r1" by simp
  with d have r1: "r1 = takeWhile (\<lambda>c. c \<noteq> GT) r1 @ GT # js ''<sup>'' @ r2"
    by (simp add: js_def GT_def)
  have g: "GT \<notin> set (takeWhile (\<lambda>c. c \<noteq> GT) r1)" by (auto dest: set_takeWhileD)
  define body where "body = js ''a '' @ takeWhile (\<lambda>c. c \<noteq> GT) r1"
  have "s = LT # body @ GT # js ''<sup>'' @ r2"
    using s r1 by (simp add: body_def js_def LT_def)
  moreover have "body \<noteq> []" by (simp add: body_def js_def)
  moreover have "GT \<notin> set body" using g by (simp add: body_def js_def GT_def)
  ultimately have "matchTag s = Some (js ''<sup>'' @ r2)"
    unfolding matchTag_iff by blast
  then show ?thesis by simp
qed

lemma matchAt_None: "(matchAt s = None) = (matchTag s = None)"
  by (cases "matchCitation s") (auto simp: matchAt_def dest: matchCitation_tag)

lemma matchCitation_suffix: "matchCitation s = Some r \<Longrightarrow> set r \<subseteq> set s"
proof -
  assume "matchCitation s = Some r"
  then obtain r1 r2 where s: "s = js ''<a '' @ r1"
    and d: "dropWhile (\<lambda>c. c \<noteq> GT) r1 = js ''><sup>'' @ r2"
    and e: "dropWhile isDigit r2 = js ''</sup></a>'' @ r"
    by (auto simp: matchCitation_def literal_iff split: option.splits if_splits)
  have "set r \<subseteq> set (dropWhile isDigit r2)" using e by auto
  also have "\<dots> \<subseteq> set r2" by (auto dest: set_dropWhileD)
  also have "\<dots> \<subseteq> set (dropWhile (\<lambda>c. c \<noteq> GT) r1)" using d by auto
  also have "\<dots> \<subseteq> set r1" by (auto dest: set_dropWhileD)
  also have "\<dots> \<subseteq> set s" using s by auto
  finally show ?thesis .
qed

lemma matchAt_suffix: "matchAt s = Some r \<Longrightarrow> set r \<subseteq> set s"
  by (auto simp: matchAt_def matchTag_iff split: option.splits dest: matchCitation_suffix)

lemma set_replaceAll: "set (replaceAll s) \<subseteq> set s"
proof (induction s rule: replaceAll.induct)
  case 1
  then show ?case by simp
next
  case (2 c cs)
  show ?case
  proof (cases "matchAt (c # cs)")
    case None
    with 2 show ?thesis by auto
  next
    case (Some r)
    with 2 matchAt_suffix [OF Some] show ?thesis by auto
  qed
qed

lemma matchTag_None_Cons:
  "(matchTag (c # cs) = None) = (c \<noteq> LT \<or> cs = [] \<or> hd cs = GT \<or> GT \<notin> set cs)"
proof (cases "c = LT \<and> cs \<noteq> [] \<and> hd cs \<noteq> GT \<and> GT \<in> set cs")
  case True
  then obtain pre post where sp: "cs = pre @ GT # post" and g: "GT \<notin> set pre"
    by (meson split_list_first)
  from True sp have "pre \<noteq> []" by (cases pre) auto
  with sp g True have "matchTag (c # cs) = Some post" unfolding matchTag_iff by blast
  with True show ?thesis by simp
next
  case False
  have "matchTag (c # cs) = None"
  proof (rule ccontr)
    assume "matchTag (c # cs) \<noteq> None"
    then obtain r where "matchTag (c # cs) = Some r" by blast
    then obtain body where "c # cs = LT # body @ GT # r" "body \<noteq> []" "GT \<notin> set body"
      unfolding matchTag_iff by blast
    then have "c = LT \<and> cs \<noteq> [] \<and> hd cs \<noteq> GT \<and> GT \<in> set cs" by (cases body) auto
    with False show False by blast
  qed
  with False show ?thesis by blast
qed

lemma replaceAll_no_match: "matchAt (drop i (replaceAll s)) = None"
proof (induction s arbitrary: i rule: replaceAll.induct)
  case 1
  then show ?case by (simp add: matchAt_def matchCitation_def matchTag_def js_def)
next
  case (2 c cs)
  show ?case
  proof (cases "matchAt (c # cs)")
    case (Some r)
    with 2 show ?thesis by simp
  next
    case None
    then have out: "replaceAll (c # cs) = c # replaceAll cs" by simp
    show ?thesis
    proof (cases i)
      case (Suc j)
      with out None 2 show ?thesis by simp
    next
      case 0
      from None have t: "c \<noteq> LT \<or> cs = [] \<or> hd cs = GT \<or> GT \<notin> set cs"
        by (simp add: matchAt_None matchTag_None_Cons)
      have "c \<noteq> LT \<or> replaceAll cs = [] \<or> hd (replaceAll cs) = GT \<or> GT \<notin> set (replaceAll cs)"
      proof -
        { assume "cs = []" then have "replaceAll cs = []" by simp }
        moreover
        { assume h: "cs \<noteq> []" "hd cs = GT"
          then obtain cs' where cs: "cs = GT # cs'" by (cases cs) auto
          have "matchAt (GT # cs') = None"
            by (simp add: matchAt_None matchTag_None_Cons GT_def LT_def)
          with cs have "hd (replaceAll cs) = GT" by simp }
        moreover
        { assume "GT \<notin> set cs"
          with set_replaceAll [of cs] have "GT \<notin> set (replaceAll cs)" by blast }
        ultimately show ?thesis using t by blast
      qed
      then have "matchTag (c # replaceAll cs) = None" by (simp add: matchTag_None_Cons)
      with 0 out show ?thesis by (simp add: matchAt_None)
    qed
  qed
qed

text \<open>
  What the replacement does, piece by piece: text without \<^verbatim>\<open><\<close> is kept, citation markup is
  dropped whole (its number included), a tag that does not start citation markup is
  dropped, and the search goes on behind each.
\<close>

lemma matchAt_Nil: "matchAt [] = None"
  by (simp add: matchAt_def matchCitation_def matchTag_def js_def)

lemma replaceAll_match: "matchAt s = Some r \<Longrightarrow> replaceAll s = replaceAll r"
  by (cases s) (simp_all add: matchAt_Nil)

lemma replaceAll_text: "LT \<notin> set t \<Longrightarrow> replaceAll (t @ r) = t @ replaceAll r"
proof (induction t)
  case Nil
  then show ?case by simp
next
  case (Cons c t)
  then have "c \<noteq> LT" by auto
  then have "matchAt (c # t @ r) = None" by (simp add: matchAt_None matchTag_None_Cons)
  with Cons show ?case by simp
qed

lemma replaceAll_citation:
  assumes "GT \<notin> set attrs" and "ds \<noteq> []" and "list_all isDigit ds"
  shows "replaceAll (js ''<a '' @ attrs @ js ''><sup>'' @ ds @ js ''</sup></a>'' @ r) = replaceAll r"
proof -
  have "matchCitation (js ''<a '' @ attrs @ js ''><sup>'' @ ds @ js ''</sup></a>'' @ r) = Some r"
    unfolding matchCitation_iff using assms by blast
  then have "matchAt (js ''<a '' @ attrs @ js ''><sup>'' @ ds @ js ''</sup></a>'' @ r) = Some r"
    by (simp add: matchAt_def)
  then show ?thesis by (rule replaceAll_match)
qed

lemma replaceAll_tag:
  assumes "body \<noteq> []" and "GT \<notin> set body"
    and "matchCitation (LT # body @ GT # r) = None"
  shows "replaceAll (LT # body @ GT # r) = replaceAll r"
proof -
  have "matchTag (LT # body @ GT # r) = Some r"
    unfolding matchTag_iff using assms(1,2) by blast
  with assms(3) have "matchAt (LT # body @ GT # r) = Some r" by (simp add: matchAt_def)
  then show ?thesis by (rule replaceAll_match)
qed

text \<open>With the clipboard defined, the handler hands exactly that text to the clipboard.\<close>

lemma handleCopy_writes:
  "clipboardDefined p \<Longrightarrow>
   handleCopy p s =
     Inr (s\<lparr>calls := calls s @ [ClipboardWriteText (replaceAll (sanitizedAnswerHtml p))],
            pendingWrites := Suc (pendingWrites s)\<rparr>)"
  by (simp add: handleCopy_def textToCopy_def)

text \<open>
  C6: the text handed to the clipboard is the sanitized HTML after the one replacement,
  and for the sanitized HTML \<^verbatim>\<open><a href=x><sup>1</sup></a>Hello <b>world</b>\<close> it is exactly
  \<^verbatim>\<open>Hello world\<close>. But the expression does not remove all citation markup and all tags, as
  the comment above it says it does: it ends a tag at the first \<^verbatim>\<open>>\<close>, also inside an
  attribute value. For the citation markup \<^verbatim>\<open><a title="a>b"><sup>1</sup></a>\<close> the text
  handed to the clipboard is \<^verbatim>\<open>b">1\<close>: the rest of the tag and the citation number. The same
  happens without the quotes, where \<^verbatim>\<open><a title=a>b><sup>1</sup></a>\<close> is copied as \<^verbatim>\<open>b>1\<close>.
\<close>

theorem handleCopy_leaves_markup:
  "textToCopy exampleProps = js ''Hello world'' \<and>
   textToCopy (exampleProps\<lparr>sanitizedAnswerHtml := citationWithGt\<rparr>) = js ''b'' @ [DQ] @ js ''>1'' \<and>
   run True id (exampleProps\<lparr>sanitizedAnswerHtml := citationWithGt\<rparr>) [ClickCopy] initialState
     = Some (initialState\<lparr>calls := [ClipboardWriteText (js ''b'' @ [DQ] @ js ''>1'')],
               pendingWrites := 1\<rparr>) \<and>
   textToCopy (exampleProps\<lparr>sanitizedAnswerHtml := js ''<a title=a>b><sup>1</sup></a>''\<rparr>)
     = js ''b>1''"
proof -
  have a: "replaceAll (js ''<a href=x><sup>1</sup></a>Hello <b>world</b>'') = js ''Hello world''"
    by (simp add: js_def matchAt_def matchCitation_def matchTag_def GT_def LT_def isDigit_def)
  have b: "replaceAll citationWithGt = js ''b'' @ [DQ] @ js ''>1''"
    by (simp add: citationWithGt_def DQ_def js_def matchAt_def matchCitation_def matchTag_def
          GT_def LT_def isDigit_def)
  have c: "replaceAll (js ''<a title=a>b><sup>1</sup></a>'') = js ''b>1''"
    by (simp add: js_def matchAt_def matchCitation_def matchTag_def GT_def LT_def isDigit_def)
  have d: "clipboardDefined (exampleProps\<lparr>sanitizedAnswerHtml := citationWithGt\<rparr>)"
    by (simp add: exampleProps_def)
  have e: "run True id (exampleProps\<lparr>sanitizedAnswerHtml := citationWithGt\<rparr>) [ClickCopy] initialState
     = Some (initialState\<lparr>calls := [ClipboardWriteText (js ''b'' @ [DQ] @ js ''>1'')],
               pendingWrites := 1\<rparr>)"
    by (simp add: step_def behindDialog_def render_def handleCopy_writes [OF d] b)
       (simp add: initialState_def)
  show ?thesis
    using e by (simp add: textToCopy_def a b c) (simp add: exampleProps_def a)
qed




















section \<open>Citations and follow-up questions\<close>

lemma decimalValue_decimal: "decimalValue (decimal n) = n"
proof (induction n rule: decimal.induct)
  case (1 n)
  show ?case
  proof (cases "n < 10")
    case True
    have "unat (of_nat (48 + n) :: 16 word) = (48 + n) mod 2 ^ LENGTH(16)"
      by (rule unat_of_nat)
    with True show ?thesis
      by (simp add: decimal.simps [of n] decimalValue_def digitChar_def)
  next
    case False
    have "n mod 10 < 10" by simp
    have "unat (of_nat (48 + n mod 10) :: 16 word) = (48 + n mod 10) mod 2 ^ LENGTH(16)"
      by (rule unat_of_nat)
    with False 1 show ?thesis
      by (simp add: decimal.simps [of n] decimalValue_def digitChar_def)
  qed
qed

lemma citationLinks_nth:
  "i < length cs \<Longrightarrow>
   citationLinks gp cs ! i =
     \<lparr>linkKey = Suc i, linkTitle = cs ! i, linkText = decimal (Suc i) @ js ''. '' @ cs ! i,
      linkOnClick = OnCitationClicked (gp (cs ! i))\<rparr>"
  by (simp add: citationLinks_def nth_enumerate_eq)

text \<open>
  C7: for an answer whose parsed citation list has \<open>N\<close> entries, exactly \<open>N\<close> citation
  links are rendered (none, and no block, when \<open>N = 0\<close>). The link at index \<open>i\<close> is
  labelled with the decimal numeral of \<open>i + 1\<close>, a period, a space and the \<open>i\<close>-th
  citation, so the labels count from 1 to \<open>N\<close> in the order of the list; its click
  handler calls the citation-click handler with the path the path-resolution function
  gives for the \<open>i\<close>-th citation, and a click on it makes exactly that call.
\<close>

theorem citation_links:
  "length (shown (citationList (render gp p s))) = length (citations p) \<and>
   (citationList (render gp p s) = None) = (citations p = []) \<and>
   (\<forall>i<length (citations p).
      linkKey (shown (citationList (render gp p s)) ! i) = i + 1 \<and>
      linkText (shown (citationList (render gp p s)) ! i)
        = decimal (i + 1) @ js ''. '' @ citations p ! i \<and>
      decimalValue (decimal (i + 1)) = i + 1 \<and>
      linkOnClick (shown (citationList (render gp p s)) ! i)
        = OnCitationClicked (gp (citations p ! i)) \<and>
      (\<not> behindDialog modal (render gp p s) \<longrightarrow>
         step modal gp p (ClickCitation i) s
           = Some (s\<lparr>calls := calls s @ [OnCitationClicked (gp (citations p ! i))]\<rparr>)))"
proof (cases "citations p = []")
  case True
  then show ?thesis by (simp add: render_def citationBlock_def shown_def)
next
  case False
  then have c: "citationList (render gp p s) = Some (citationLinks gp (citations p))"
    by (simp add: render_def citationBlock_def)
  have l: "length (citationLinks gp (citations p)) = length (citations p)"
    by (simp add: citationLinks_def)
  have b: "behindDialog modal (render gp p s) = (modal \<and> isFeedbackDialogOpen s)"
    by (simp add: behindDialog_def render_def)
  show ?thesis
    using False
    by (simp add: c l shown_def citationLinks_nth decimalValue_decimal step_def Let_def
          clickable_def clickLink_def)
qed

theorem citation_links_witness:
  "map linkText (shown (citationList (render id exampleProps initialState)))
     = [js ''1. a.pdf'', js ''2. b.pdf''] \<and>
   map_option calls (run True examplePath exampleProps [ClickCitation 1] initialState)
     = Some [OnCitationClicked (js ''/content/b.pdf'')]"
proof -
  note t = citation_links [where gp = id and p = exampleProps and s = initialState
      and modal = True]
  note u = citation_links [where gp = examplePath and p = exampleProps
      and s = initialState and modal = True]
  have c: "citations exampleProps = [js ''a.pdf'', js ''b.pdf'']" by (simp add: exampleProps_def)
  have i0: "0 < length (citations exampleProps)" and i1: "1 < length (citations exampleProps)"
    by (simp_all add: c)
  have d1: "decimal (Suc 0) = js ''1''"
    by (simp add: decimal.simps [of "Suc 0"] digitChar_def js_def)
  have d2: "decimal (Suc (Suc 0)) = js ''2''"
    by (simp add: decimal.simps [of "Suc (Suc 0)"] digitChar_def js_def)
  have b: "\<not> behindDialog True (render examplePath exampleProps initialState)"
    by (simp add: behindDialog_def render_def initialState_def)
  from t have n: "length (shown (citationList (render id exampleProps initialState))) = Suc (Suc 0)"
    by (simp add: c)
  from t [THEN conjunct2, THEN conjunct2, rule_format, OF i0]
  have a0: "linkText (shown (citationList (render id exampleProps initialState)) ! 0) = js ''1. a.pdf''"
    by (simp add: c d1 js_def)
  from t [THEN conjunct2, THEN conjunct2, rule_format, OF i1]
  have a1: "linkText (shown (citationList (render id exampleProps initialState)) ! Suc 0) = js ''2. b.pdf''"
    by (simp add: c d2 js_def)
  from n a0 a1 have m: "map linkText (shown (citationList (render id exampleProps initialState)))
     = [js ''1. a.pdf'', js ''2. b.pdf'']"
    by (simp add: list_eq_iff_nth_eq less_Suc_eq)
  from u [THEN conjunct2, THEN conjunct2, rule_format, OF i1] b
  have "step True examplePath exampleProps (ClickCitation 1) initialState
     = Some (initialState\<lparr>calls := [OnCitationClicked (js ''/content/b.pdf'')]\<rparr>)"
    by (simp add: c initialState_def js_def examplePath_def)
  with m show ?thesis by simp
qed


lemma followupLinks_nth:
  "i < length qs \<Longrightarrow>
   followupLinks qs ! i =
     \<lparr>linkKey = i, linkTitle = qs ! i, linkText = qs ! i,
      linkOnClick = OnFollowupQuestionClicked (qs ! i)\<rparr>"
  by (simp add: followupLinks_def nth_enumerate_eq)

lemma followupLinks_length: "length (followupLinks qs) = length qs"
  by (simp add: followupLinks_def)

lemma followupLinks_maps:
  "map linkText (followupLinks qs) = qs \<and>
   map linkOnClick (followupLinks qs) = map OnFollowupQuestionClicked qs \<and>
   map (\<lambda>l. OnFollowupQuestionClicked (linkText l)) (followupLinks qs)
     = map OnFollowupQuestionClicked qs"
proof (intro conjI)
  show "map linkText (followupLinks qs) = qs"
    by (rule nth_equalityI) (simp_all add: followupLinks_length followupLinks_nth)
  show "map linkOnClick (followupLinks qs) = map OnFollowupQuestionClicked qs"
    by (rule nth_equalityI) (simp_all add: followupLinks_length followupLinks_nth)
  show "map (\<lambda>l. OnFollowupQuestionClicked (linkText l)) (followupLinks qs)
     = map OnFollowupQuestionClicked qs"
    by (rule nth_equalityI) (simp_all add: followupLinks_length followupLinks_nth)
qed

text \<open>
  C8: the follow-up block is rendered if and only if the follow-up list is present and
  non-empty, the show-follow-ups flag is true and a follow-up click handler was
  supplied. When it is absent no follow-up entry can be clicked. When it is rendered,
  its entries are the questions in order, each with the question as its text, and a
  click on an entry calls the handler with that text.
\<close>

theorem followup_block:
  "(followupList (render gp p s) \<noteq> None) =
     ((\<exists>qs. followupQuestions p = Some qs \<and> qs \<noteq> []) \<and>
      showFollowupQuestions p = Some True \<and> onFollowupQuestionClicked p) \<and>
   (followupList (render gp p s) = None \<longrightarrow> (\<forall>i. step modal gp p (ClickFollowup i) s = None)) \<and>
   (followupList (render gp p s) \<noteq> None \<longrightarrow>
      followupQuestions p = Some (map linkText (shown (followupList (render gp p s)))) \<and>
      map linkOnClick (shown (followupList (render gp p s)))
        = map (\<lambda>l. OnFollowupQuestionClicked (linkText l)) (shown (followupList (render gp p s))) \<and>
      (\<forall>i<length (shown (followupList (render gp p s))).
         \<not> behindDialog modal (render gp p s) \<longrightarrow>
         step modal gp p (ClickFollowup i) s
           = Some (s\<lparr>calls := calls s @
               [OnFollowupQuestionClicked (linkText (shown (followupList (render gp p s)) ! i))]\<rparr>)))"
proof (cases "followupList (render gp p s)")
  case None
  then have "followupBlock p = None" by (simp add: render_def)
  then have "\<not> ((\<exists>qs. followupQuestions p = Some qs \<and> qs \<noteq> []) \<and>
      showFollowupQuestions p = Some True \<and> onFollowupQuestionClicked p)"
    by (auto simp: followupBlock_def split: option.splits if_splits)
  with None show ?thesis by (simp add: step_def clickable_def)
next
  case (Some links)
  then have f: "followupBlock p = Some links" by (simp add: render_def)
  then obtain qs where q: "followupQuestions p = Some qs" and n: "qs \<noteq> []"
    and sh: "showFollowupQuestions p = Some True" and h: "onFollowupQuestionClicked p"
    and l: "links = followupLinks qs"
    by (auto simp: followupBlock_def split: option.splits if_splits)
  note m = followupLinks_maps [of qs]
  show ?thesis
    using Some q n sh h m
    by (simp add: l shown_def step_def clickable_def clickLink_def followupLinks_nth
          followupLinks_length)
qed


theorem followup_block_witness:
  "map_option calls (run True id exampleProps [ClickFollowup 0] initialState)
     = Some [OnFollowupQuestionClicked (js ''Why?'')] \<and>
   followupList (render id (exampleProps\<lparr>showFollowupQuestions := None\<rparr>) initialState) = None \<and>
   followupList (render id (exampleProps\<lparr>showFollowupQuestions := Some False\<rparr>) initialState) = None \<and>
   followupList (render id (exampleProps\<lparr>onFollowupQuestionClicked := False\<rparr>) initialState) = None \<and>
   followupList (render id (exampleProps\<lparr>followupQuestions := Some []\<rparr>) initialState) = None \<and>
   followupList (render id (exampleProps\<lparr>followupQuestions := None\<rparr>) initialState) = None"
proof -
  note t = followup_block [where gp = id and s = initialState and modal = True]
  have a: "followupList (render id exampleProps initialState) \<noteq> None"
    using t [of exampleProps] by (simp add: exampleProps_def)
  have q: "map linkText (shown (followupList (render id exampleProps initialState))) = [js ''Why?'']"
    using t [of exampleProps] a by (simp add: exampleProps_def)
  then have l: "0 < length (shown (followupList (render id exampleProps initialState)))"
    and x: "linkText (shown (followupList (render id exampleProps initialState)) ! 0) = js ''Why?''"
    by (auto simp: map_eq_Cons_conv)
  have b: "\<not> behindDialog True (render id exampleProps initialState)"
    by (simp add: behindDialog_def render_def initialState_def)
  from t [of exampleProps, THEN conjunct2, THEN conjunct2, rule_format, OF a,
      THEN conjunct2, THEN conjunct2, rule_format, OF l b] x
  have "step True id exampleProps (ClickFollowup 0) initialState
     = Some (initialState\<lparr>calls := [OnFollowupQuestionClicked (js ''Why?'')]\<rparr>)"
    by (simp add: initialState_def)
  moreover have
    "followupList (render id (exampleProps\<lparr>showFollowupQuestions := None\<rparr>) initialState) = None"
    "followupList (render id (exampleProps\<lparr>showFollowupQuestions := Some False\<rparr>) initialState) = None"
    "followupList (render id (exampleProps\<lparr>onFollowupQuestionClicked := False\<rparr>) initialState) = None"
    "followupList (render id (exampleProps\<lparr>followupQuestions := Some []\<rparr>) initialState) = None"
    "followupList (render id (exampleProps\<lparr>followupQuestions := None\<rparr>) initialState) = None"
    using t [of "exampleProps\<lparr>showFollowupQuestions := None\<rparr>"]
      t [of "exampleProps\<lparr>showFollowupQuestions := Some False\<rparr>"]
      t [of "exampleProps\<lparr>onFollowupQuestionClicked := False\<rparr>"]
      t [of "exampleProps\<lparr>followupQuestions := Some []\<rparr>"]
      t [of "exampleProps\<lparr>followupQuestions := None\<rparr>"]
    by simp_all
  ultimately show ?thesis by simp
qed

end
